theory Spec2Isabelle
  imports Main
begin

section \<open>Python strings\<close>

text \<open>
  A Python \<^verbatim>\<open>str\<close> is a sequence of Unicode code points, and \<^verbatim>\<open>len\<close> counts code
  points. A string is therefore a list of code points, each a natural number; the literals
  of \<^verbatim>\<open>main.py\<close> are ASCII and are written through \<open>py\<close>.
\<close>

type_synonym codepoint = nat
type_synonym pystr = "codepoint list"

definition py :: "string \<Rightarrow> pystr" where
  "py s = map of_char s"

text \<open>
  \<^verbatim>\<open>str.split()\<close> without arguments and \<^verbatim>\<open>str.strip()\<close> without arguments use the same
  notion of whitespace, the one of \<^verbatim>\<open>str.isspace\<close>: U+0009..U+000D, U+001C..U+0020,
  U+0085, U+00A0, U+1680, U+2000..U+200A, U+2028, U+2029, U+202F, U+205F and U+3000.
\<close>

definition is_space :: "codepoint \<Rightarrow> bool" where
  "is_space c =
     ((9 \<le> c \<and> c \<le> 13) \<or> (28 \<le> c \<and> c \<le> 32) \<or> c = 133 \<or> c = 160 \<or> c = 5760
      \<or> (8192 \<le> c \<and> c \<le> 8202) \<or> c = 8232 \<or> c = 8233 \<or> c = 8239 \<or> c = 8287
      \<or> c = 12288)"

text \<open>\<^verbatim>\<open>s.strip()\<close>: whitespace removed at both ends.\<close>

definition strip :: "pystr \<Rightarrow> pystr" where
  "strip s = rev (dropWhile is_space (rev (dropWhile is_space s)))"

text \<open>\<^verbatim>\<open>s.rstrip()\<close>: whitespace removed at the right end only.\<close>

definition rstrip :: "pystr \<Rightarrow> pystr" where
  "rstrip s = rev (dropWhile is_space (rev s))"

text \<open>
  \<^verbatim>\<open>s.split()\<close>: skip whitespace, take the characters up to the next whitespace as a
  word, and go on with the rest; no word is empty.
\<close>

function split :: "pystr \<Rightarrow> pystr list" where
  "split s =
     (let r = dropWhile is_space s
      in if r = [] then []
         else takeWhile (\<lambda>c. \<not> is_space c) r # split (dropWhile (\<lambda>c. \<not> is_space c) r))"
  by pat_completeness auto
termination
proof (relation "measure length", goal_cases)
  case 1
  show ?case by simp
next
  case (2 s r)
  have first: "dropWhile P xs \<noteq> [] \<Longrightarrow> \<not> P (hd (dropWhile P xs))"
    for P :: "codepoint \<Rightarrow> bool" and xs
    by (induction xs) auto
  have shorter: "xs \<noteq> [] \<Longrightarrow> \<not> P (hd xs) \<Longrightarrow> length (dropWhile (\<lambda>c. \<not> P c) xs) < length xs"
    for P :: "codepoint \<Rightarrow> bool" and xs
    by (cases xs) (simp_all add: less_Suc_eq_le length_dropWhile_le)
  from 2 have ne: "dropWhile is_space s \<noteq> []" by simp
  have "\<not> is_space (hd (dropWhile is_space s))"
    by (rule first [OF ne])
  with ne have "length (dropWhile (\<lambda>c. \<not> is_space c) (dropWhile is_space s))
      < length (dropWhile is_space s)"
    by (rule shorter)
  also have "\<dots> \<le> length s" by (rule length_dropWhile_le)
  finally show ?case using 2 by simp
qed

declare split.simps [simp del]

text \<open>\<^verbatim>\<open>sep.join(words)\<close>.\<close>

fun join :: "pystr \<Rightarrow> pystr list \<Rightarrow> pystr" where
  "join sep [] = []"
| "join sep [w] = w"
| "join sep (w # v # ws) = w @ sep @ join sep (v # ws)"

section \<open>The text normaliser\<close>

text \<open>
  \<^verbatim>\<open>
  def _normalize_text(s: str) -> str:
      return " ".join((s or "").split())
  \<close>
  The argument may be \<^verbatim>\<open>None\<close>: \<^verbatim>\<open>s or ""\<close> is the empty string when \<^verbatim>\<open>s\<close> is
  \<^verbatim>\<open>None\<close> or empty. (An Isabelle name cannot start with an underscore.)
\<close>

definition normalize_text :: "pystr option \<Rightarrow> pystr" where
  "normalize_text s =
     join (py '' '') (split (case s of None \<Rightarrow> [] | Some t \<Rightarrow> if t = [] then [] else t))"

text \<open>
  The specification's wording of the same function, for comparison: every run of
  whitespace characters becomes a single space, and whitespace at both ends is removed.
\<close>

function collapse_runs :: "pystr \<Rightarrow> pystr" where
  "collapse_runs [] = []"
| "collapse_runs (c # cs) =
     (if is_space c then 32 # collapse_runs (dropWhile is_space cs)
      else c # collapse_runs cs)"
  by pat_completeness auto
termination
proof (relation "measure length", goal_cases)
  case 1
  show ?case by simp
next
  case (2 c cs)
  have "length (dropWhile is_space cs) \<le> length cs" by (rule length_dropWhile_le)
  then show ?case by simp
next
  case (3 c cs)
  show ?case by simp
qed

definition spec_normalize :: "pystr \<Rightarrow> pystr" where
  "spec_normalize s = strip (collapse_runs s)"

text \<open>No two whitespace characters are adjacent.\<close>

fun no_space_runs :: "pystr \<Rightarrow> bool" where
  "no_space_runs (a # b # cs) = (\<not> (is_space a \<and> is_space b) \<and> no_space_runs (b # cs))"
| "no_space_runs cs = True"

section \<open>Requests, responses and the external capabilities\<close>

text \<open>
  \<^verbatim>\<open>
  class ArticleRequest(BaseModel):
      text: str | None = None
      url: str | None = None
  \<close>
\<close>

record ArticleRequest =
  req_text :: "pystr option"
  req_url :: "pystr option"

text \<open>
  An exception carries the text that \<^verbatim>\<open>str(e)\<close> gives. Three kinds are told apart,
  because the handler treats them differently: \<open>PyException\<close> is an instance of
  \<^verbatim>\<open>Exception\<close> other than \<^verbatim>\<open>StopIteration\<close>, \<open>PyStopIteration\<close> is a
  \<^verbatim>\<open>StopIteration\<close>, and \<open>PyBaseException\<close> is an instance of \<^verbatim>\<open>BaseException\<close> that
  is not an \<^verbatim>\<open>Exception\<close> (\<^verbatim>\<open>KeyboardInterrupt\<close>, \<^verbatim>\<open>SystemExit\<close>).
  \<^verbatim>\<open>except Exception\<close> catches the instances of \<^verbatim>\<open>Exception\<close> only.
\<close>

datatype py_exn = PyException pystr | PyStopIteration pystr | PyBaseException pystr

fun exn_str :: "py_exn \<Rightarrow> pystr" where
  "exn_str (PyException m) = m"
| "exn_str (PyStopIteration m) = m"
| "exn_str (PyBaseException m) = m"

fun is_Exception :: "py_exn \<Rightarrow> bool" where
  "is_Exception (PyException m) = True"
| "is_Exception (PyStopIteration m) = True"
| "is_Exception (PyBaseException m) = False"

text \<open>An ordinary exception: an instance of \<^verbatim>\<open>Exception\<close> other than \<^verbatim>\<open>StopIteration\<close>.\<close>

fun is_ordinary :: "py_exn \<Rightarrow> bool" where
  "is_ordinary (PyException m) = True"
| "is_ordinary (PyStopIteration m) = False"
| "is_ordinary (PyBaseException m) = False"

text \<open>
  \<^verbatim>\<open>process_article\<close> is a coroutine. An exception raised in its body leaves it
  unchanged, except a \<^verbatim>\<open>StopIteration\<close>, which leaves a coroutine as
  \<^verbatim>\<open>RuntimeError("coroutine raised StopIteration")\<close>.
\<close>

fun leaving_coroutine :: "py_exn \<Rightarrow> py_exn" where
  "leaving_coroutine (PyStopIteration m) = PyException (py ''coroutine raised StopIteration'')"
| "leaving_coroutine e = e"

text \<open>
  The values of a response dictionary. The sentiment result \<open>'s\<close> and the related articles
  \<open>'a\<close> are opaque to \<^verbatim>\<open>process_article\<close>. A response is the dictionary literal of the
  source, its keys in the order written.
\<close>

datatype ('s, 'a) pyval =
    Str pystr
  | StrList "pystr list"
  | Sentiment 's
  | Articles "'a list"

type_synonym ('s, 'a) response = "(string \<times> ('s, 'a) pyval) list"

text \<open>
  How a call of the handler ends: it returns a response, or it raises. \<open>Unspecified\<close> stands
  for the one situation this model leaves open: a capability run in a worker thread has
  raised something other than an ordinary exception. What the handler does then (it may
  never be resumed, may receive a \<^verbatim>\<open>RuntimeError\<close>, or may be torn down with the event
  loop) depends on the version of \<^verbatim>\<open>asyncio\<close>, and nothing is stated about it.
\<close>

datatype ('s, 'a) outcome =
    Returned "('s, 'a) response"
  | Raised py_exn
  | Unspecified

text \<open>
  The functions imported from \<^verbatim>\<open>newspaper\<close>, \<^verbatim>\<open>app.topic_model\<close>,
  \<^verbatim>\<open>app.sentiment_analysis\<close>, \<^verbatim>\<open>app.bias_classifier\<close> and \<^verbatim>\<open>app.api_fetcher\<close> are
  parameters of the model: each returns a value or raises. \<open>article_text url timeout\<close> is
  \<^verbatim>\<open>Article(url)\<close> with its request timeout set, downloaded and parsed, and gives its
  \<^verbatim>\<open>.text\<close>, which may be \<^verbatim>\<open>None\<close>.
\<close>

record ('s, 'a) capabilities =
  article_text :: "pystr \<Rightarrow> nat \<Rightarrow> py_exn + pystr option"
  analyze_sentiment :: "pystr \<Rightarrow> py_exn + 's"
  classify_political_bias :: "pystr \<Rightarrow> py_exn + pystr"
  extract_topics :: "pystr \<Rightarrow> py_exn + pystr list"
  fetch_articles :: "pystr list \<Rightarrow> py_exn + 'a list"

text \<open>
  The calls to the capabilities whose result or exception the handler has received when it
  ends, in the order in which the handler issued them. A call that the handler awaits by
  itself (the scrape, the sentiment analysis of a short text, the retrieval) is in the list
  exactly when it was made. Of the three concurrent analyses, one that is still running, or
  still waiting for a worker thread, when an exception of another reaches the handler is
  not in the list.
\<close>

datatype event =
    is_Scrape: Scrape pystr nat
  | AnalyzeSentiment pystr
  | ClassifyBias pystr
  | ExtractTopics pystr
  | is_Fetch: FetchArticles "pystr list"

section \<open>The scraper\<close>

text \<open>
  \<^verbatim>\<open>
  def _scrape_with_newspaper(url: str, timeout: int = 7) -> str:
      art = Article(url)
      art.config.request_timeout = timeout
      art.download()
      art.parse()
      return (art.text or "").strip()
  \<close>
\<close>

definition scrape_with_newspaper :: "('s, 'a) capabilities \<Rightarrow> pystr \<Rightarrow> nat \<Rightarrow> py_exn + pystr" where
  "scrape_with_newspaper env u timeout =
     (case article_text env u timeout of
        Inl e \<Rightarrow> Inl e
      | Inr t \<Rightarrow> Inr (strip (case t of None \<Rightarrow> [] | Some b \<Rightarrow> if b = [] then [] else b)))"

section \<open>The concurrent analysis step\<close>

text \<open>
  \<^verbatim>\<open>
  sentiment_task = asyncio.to_thread(analyze_sentiment, text)
  bias_task = asyncio.to_thread(classify_political_bias, text)
  topics_task = asyncio.to_thread(extract_topics, text)
  sentiment, bias, keywords = await asyncio.gather(sentiment_task, bias_task, topics_task)
  \<close>
  \<^verbatim>\<open>gather\<close> submits the three calls to worker threads in the order of its arguments and
  returns their results in that order, whatever the order in which they complete. When
  calls raise ordinary exceptions, \<^verbatim>\<open>gather\<close> raises the exception of the failing call
  that completes first, as soon as that call completes. The times at which the calls
  complete are the scheduler's choice: the parameter \<open>finish\<close>, with calls that complete
  together taken in the order of the arguments. When a call raises something other than an
  ordinary exception, the result is left open.
\<close>

datatype stage = SentimentStage | BiasStage | TopicsStage

fun stage_event :: "pystr \<Rightarrow> stage \<Rightarrow> event" where
  "stage_event t SentimentStage = AnalyzeSentiment t"
| "stage_event t BiasStage = ClassifyBias t"
| "stage_event t TopicsStage = ExtractTopics t"

definition stage_failure :: "('s, 'a) capabilities \<Rightarrow> pystr \<Rightarrow> stage \<Rightarrow> py_exn option" where
  "stage_failure env t st =
     (case st of
        SentimentStage \<Rightarrow> (case analyze_sentiment env t of Inl e \<Rightarrow> Some e | Inr _ \<Rightarrow> None)
      | BiasStage \<Rightarrow> (case classify_political_bias env t of Inl e \<Rightarrow> Some e | Inr _ \<Rightarrow> None)
      | TopicsStage \<Rightarrow> (case extract_topics env t of Inl e \<Rightarrow> Some e | Inr _ \<Rightarrow> None))"

definition completion_order :: "(stage \<Rightarrow> nat) \<Rightarrow> stage list" where
  "completion_order finish = sort_key finish [SentimentStage, BiasStage, TopicsStage]"

definition first_failure ::
  "('s, 'a) capabilities \<Rightarrow> (stage \<Rightarrow> nat) \<Rightarrow> pystr \<Rightarrow> (stage \<times> py_exn) option" where
  "first_failure env finish t =
     (case List.map_filter (\<lambda>st. map_option (Pair st) (stage_failure env t st))
             (completion_order finish) of
        [] \<Rightarrow> None
      | x # _ \<Rightarrow> Some x)"

text \<open>Some analysis raises something other than an ordinary exception.\<close>

definition unusual_failure :: "('s, 'a) capabilities \<Rightarrow> pystr \<Rightarrow> bool" where
  "unusual_failure env t =
     list_ex (\<lambda>st. case stage_failure env t st of None \<Rightarrow> False | Some e \<Rightarrow> \<not> is_ordinary e)
       [SentimentStage, BiasStage, TopicsStage]"

datatype 's gathered =
    Gathered 's pystr "pystr list"
  | GatherRaised stage py_exn
  | GatherUnspecified

definition gather ::
  "('s, 'a) capabilities \<Rightarrow> (stage \<Rightarrow> nat) \<Rightarrow> pystr \<Rightarrow> 's gathered" where
  "gather env finish t =
     (if unusual_failure env t then GatherUnspecified
      else
        (case first_failure env finish t of
           Some (st, e) \<Rightarrow> GatherRaised st e
         | None \<Rightarrow>
             (case analyze_sentiment env t of
                Inl e \<Rightarrow> GatherRaised SentimentStage e
              | Inr s \<Rightarrow>
                  (case classify_political_bias env t of
                     Inl e \<Rightarrow> GatherRaised BiasStage e
                   | Inr b \<Rightarrow>
                       (case extract_topics env t of
                          Inl e \<Rightarrow> GatherRaised TopicsStage e
                        | Inr k \<Rightarrow> Gathered s b k)))))"

section \<open>The request handler\<close>

text \<open>
  \<^verbatim>\<open>x and x.strip()\<close> is true when \<^verbatim>\<open>x\<close> is neither \<^verbatim>\<open>None\<close> nor empty and its stripped
  form is not empty; \<^verbatim>\<open>x.strip()\<close> is evaluated under that guard only.
\<close>

definition nonblank :: "pystr option \<Rightarrow> bool" where
  "nonblank x = (case x of None \<Rightarrow> False | Some t \<Rightarrow> t \<noteq> [] \<and> strip t \<noteq> [])"

definition stripped :: "pystr option \<Rightarrow> pystr" where
  "stripped x = (case x of None \<Rightarrow> [] | Some t \<Rightarrow> strip t)"

text \<open>
  Step 1 of \<^verbatim>\<open>process_article\<close>, \<^verbatim>\<open># 1) pick source\<close>. The result is the raw text, or
  the way the handler ends there: an error response returned, or an exception that
  \<^verbatim>\<open>except Exception\<close> does not catch.
  \<^verbatim>\<open>
  if req.text and req.text.strip():
      raw_text = req.text.strip()
  elif req.url and req.url.strip():
      try:
          raw_text = _scrape_with_newspaper(req.url.strip())
      except Exception as e:
          return {"error": f"Failed to extract article from URL: {e}"}
  else:
      return {"error": "Please provide either text or a valid URL."}
  \<close>
\<close>

definition pick_source ::
  "('s, 'a) capabilities \<Rightarrow> ArticleRequest \<Rightarrow> event list \<times> (('s, 'a) outcome + pystr)" where
  "pick_source env req =
     (if nonblank (req_text req) then ([], Inr (stripped (req_text req)))
      else if nonblank (req_url req) then
        (case scrape_with_newspaper env (stripped (req_url req)) 7 of
           Inl e \<Rightarrow>
             ([Scrape (stripped (req_url req)) 7],
              Inl (if is_Exception e
                   then Returned [(''error'',
                          Str (py ''Failed to extract article from URL: '' @ exn_str e))]
                   else Raised e))
         | Inr raw_text \<Rightarrow> ([Scrape (stripped (req_url req)) 7], Inr raw_text))
      else ([], Inl (Returned [(''error'', Str (py ''Please provide either text or a valid URL.''))])))"

text \<open>
  The rest of \<^verbatim>\<open>process_article\<close>, from \<^verbatim>\<open>text = _normalize_text(raw_text)\<close> on.
  \<^verbatim>\<open>
  text = _normalize_text(raw_text)
  if len(text) < 200:
      return {
          "keywords": ["news", "world", "article"],
          "sentiment": analyze_sentiment(text),
          "bias": "center",
          "related_articles": [],
          "note": "Input is quite short; topic extraction is less reliable on short texts.",
      }
  ... gather ...
  related = await asyncio.to_thread(fetch_articles, keywords)
  return {
      "keywords": keywords,
      "sentiment": sentiment,
      "bias": bias,
      "related_articles": related[:7],
  }
  \<close>
  No exception is caught here. The sentiment analysis of a short text runs in the body of
  the coroutine; the retrieval runs in a worker thread, as the three analyses do.
\<close>

definition run_analysis ::
  "('s, 'a) capabilities \<Rightarrow> (stage \<Rightarrow> nat) \<Rightarrow> pystr \<Rightarrow> event list \<times> ('s, 'a) outcome" where
  "run_analysis env finish raw_text =
     (let t = normalize_text (Some raw_text)
      in if length t < 200 then
           ([AnalyzeSentiment t],
            (case analyze_sentiment env t of
               Inl e \<Rightarrow> Raised (leaving_coroutine e)
             | Inr s \<Rightarrow>
                 Returned
                   [(''keywords'', StrList [py ''news'', py ''world'', py ''article'']),
                    (''sentiment'', Sentiment s),
                    (''bias'', Str (py ''center'')),
                    (''related_articles'', Articles []),
                    (''note'', Str (py
                       ''Input is quite short; topic extraction is less reliable on short texts.''))]))
         else
           (case gather env finish t of
              GatherUnspecified \<Rightarrow> ([], Unspecified)
            | GatherRaised st e \<Rightarrow> ([stage_event t st], Raised e)
            | Gathered sentiment bias keywords \<Rightarrow>
                (case fetch_articles env keywords of
                   Inl e \<Rightarrow>
                     (if is_ordinary e
                      then ([AnalyzeSentiment t, ClassifyBias t, ExtractTopics t,
                             FetchArticles keywords], Raised e)
                      else ([AnalyzeSentiment t, ClassifyBias t, ExtractTopics t], Unspecified))
                 | Inr related \<Rightarrow>
                     ([AnalyzeSentiment t, ClassifyBias t, ExtractTopics t,
                       FetchArticles keywords],
                      Returned
                        [(''keywords'', StrList keywords),
                         (''sentiment'', Sentiment sentiment),
                         (''bias'', Str bias),
                         (''related_articles'', Articles (take 7 related))]))))"

definition process_article ::
  "('s, 'a) capabilities \<Rightarrow> (stage \<Rightarrow> nat) \<Rightarrow> ArticleRequest \<Rightarrow> event list \<times> ('s, 'a) outcome" where
  "process_article env finish req =
     (case pick_source env req of
        (calls, Inl ended) \<Rightarrow> (calls, ended)
      | (calls, Inr raw_text) \<Rightarrow>
          (case run_analysis env finish raw_text of
             (calls', result) \<Rightarrow> (calls @ calls', result)))"


section \<open>Sample capabilities and requests\<close>

text \<open>Concrete capabilities, schedules and requests, on which the theorems below are run.\<close>

definition stub_capabilities :: "(pystr, pystr) capabilities" where
  "stub_capabilities =
     \<lparr>article_text = (\<lambda>u timeout.
         if u = py ''https://example.com/dead-link'' then Inl (PyException (py ''timed out''))
         else Inr (Some (py ''   ''))),
      analyze_sentiment = (\<lambda>t. Inr (py ''neutral'')),
      classify_political_bias = (\<lambda>t. Inr (py ''left'')),
      extract_topics = (\<lambda>t. Inr [py ''economy'']),
      fetch_articles = (\<lambda>k. Inr (replicate 9 (py ''headline'')))\<rparr>"


definition failing_sentiment :: "(pystr, pystr) capabilities" where
  "failing_sentiment =
     stub_capabilities\<lparr>analyze_sentiment := (\<lambda>t. Inl (PyException (py ''model not loaded'')))\<rparr>"

definition long_text :: pystr where
  "long_text = replicate 200 97"

definition long_request :: ArticleRequest where
  "long_request = \<lparr>req_text = Some long_text, req_url = None\<rparr>"

definition simultaneous :: "stage \<Rightarrow> nat" where
  "simultaneous st = 0"

definition topics_first :: "stage \<Rightarrow> nat" where
  "topics_first st = (case st of TopicsStage \<Rightarrow> 0 | BiasStage \<Rightarrow> 1 | SentimentStage \<Rightarrow> 2)"

section \<open>Properties of splitting and joining\<close>

lemma hd_dropWhile_not:
  "dropWhile P xs \<noteq> [] \<Longrightarrow> \<not> P (hd (dropWhile P xs))"
  by (induction xs) auto

lemma is_space_32: "is_space 32"
  by (simp add: is_space_def)

lemma split_Nil: "split [] = []"
  by (subst split.simps) simp

lemma split_lstrip: "split (dropWhile is_space s) = split s"
proof -
  have "dropWhile is_space (dropWhile is_space s) = dropWhile is_space s"
    by (rule dropWhile_idem)
  then show ?thesis
    by (subst split.simps, subst (2) split.simps) simp
qed

lemma split_empty: "dropWhile is_space s = [] \<Longrightarrow> split s = []"
  by (subst split.simps) simp

lemma split_Cons:
  "dropWhile is_space s \<noteq> [] \<Longrightarrow>
   split s = takeWhile (\<lambda>c. \<not> is_space c) (dropWhile is_space s)
               # split (dropWhile (\<lambda>c. \<not> is_space c) (dropWhile is_space s))"
  by (subst split.simps) (simp add: Let_def)

lemma split_space_Cons: "is_space c \<Longrightarrow> split (c # s) = split s"
proof -
  assume "is_space c"
  then have "dropWhile is_space (c # s) = dropWhile is_space s" by simp
  then have "split (dropWhile is_space (c # s)) = split (dropWhile is_space s)" by simp
  then show ?thesis by (simp only: split_lstrip)
qed

lemma split_words:
  "w \<in> set (split s) \<Longrightarrow> w \<noteq> [] \<and> (\<forall>c\<in>set w. \<not> is_space c)"
proof (induction s rule: split.induct)
  case (1 s)
  let ?r = "dropWhile is_space s"
  show ?case
  proof (cases "?r = []")
    case True
    with 1(2) show ?thesis by (simp add: split_empty)
  next
    case False
    then have hd: "\<not> is_space (hd ?r)" by (rule hd_dropWhile_not)
    from 1(2) have "w = takeWhile (\<lambda>c. \<not> is_space c) ?r
        \<or> w \<in> set (split (dropWhile (\<lambda>c. \<not> is_space c) ?r))"
      unfolding split_Cons [OF False] by simp
    then show ?thesis
    proof
      assume w: "w = takeWhile (\<lambda>c. \<not> is_space c) ?r"
      from False hd have "w \<noteq> []" unfolding w by (cases ?r) auto
      moreover have "\<forall>c\<in>set w. \<not> is_space c"
        unfolding w by (auto dest: set_takeWhileD)
      ultimately show ?thesis by simp
    next
      assume "w \<in> set (split (dropWhile (\<lambda>c. \<not> is_space c) ?r))"
      with 1(1) [OF refl False] show ?thesis by simp
    qed
  qed
qed

lemma split_word_append:
  assumes "w \<noteq> []" and "\<forall>c\<in>set w. \<not> is_space c" and "r = [] \<or> is_space (hd r)"
  shows "split (w @ r) = w # split r"
proof -
  from assms(1,2) have d: "dropWhile is_space (w @ r) = w @ r"
    by (cases w) auto
  from assms(2,3) have t: "takeWhile (\<lambda>c. \<not> is_space c) (w @ r) = w"
    by (cases r) (auto simp: takeWhile_append2)
  from assms(2,3) have dd: "dropWhile (\<lambda>c. \<not> is_space c) (w @ r) = r"
    by (cases r) (auto simp: dropWhile_append2)
  from assms(1) have "dropWhile is_space (w @ r) \<noteq> []" by (simp add: d)
  from split_Cons [OF this] show ?thesis
    by (simp add: d t dd)
qed

lemma split_join:
  "\<forall>w\<in>set ws. w \<noteq> [] \<and> (\<forall>c\<in>set w. \<not> is_space c) \<Longrightarrow> split (join [32] ws) = ws"
proof (induction "[32::nat]" ws rule: join.induct)
  case 1
  show ?case by (simp add: split_Nil)
next
  case (2 w)
  then have "split (w @ []) = w # split []"
    by (intro split_word_append) auto
  then show ?case by (simp add: split_Nil)
next
  case (3 w v ws)
  have "split (w @ (32 # join [32] (v # ws))) = w # split (32 # join [32] (v # ws))"
    using 3(2) by (intro split_word_append) (auto simp: is_space_32)
  moreover have "split (32 # join [32] (v # ws)) = split (join [32] (v # ws))"
    by (rule split_space_Cons [OF is_space_32])
  moreover have "split (join [32] (v # ws)) = v # ws"
    using 3 by simp
  ultimately show ?case by simp
qed

lemma py_space: "py '' '' = [32]"
  by (simp add: py_def)

lemma normalize_text_Some: "normalize_text (Some s) = join [32] (split s)"
  by (simp add: normalize_text_def py_space split_Nil)

lemma collapse_runs_word:
  "\<forall>c\<in>set w. \<not> is_space c \<Longrightarrow> collapse_runs (w @ r) = w @ collapse_runs r"
  by (induction w) simp_all

lemma collapse_runs_space:
  "r \<noteq> [] \<Longrightarrow> is_space (hd r) \<Longrightarrow>
   collapse_runs r = 32 # collapse_runs (dropWhile is_space r)"
  by (cases r) simp_all

lemma rstrip_Nil: "rstrip [] = []"
  by (simp add: rstrip_def)

lemma rstrip_append:
  "rstrip (a @ b) = (if rstrip b = [] then rstrip a else a @ rstrip b)"
  by (simp add: rstrip_def dropWhile_append)

lemma rstrip_word: "w \<noteq> [] \<Longrightarrow> \<not> is_space (last w) \<Longrightarrow> rstrip w = w"
  by (cases w rule: rev_cases) (simp_all add: rstrip_def)

lemma rstrip_space_Cons: "is_space c \<Longrightarrow> rstrip (c # s) = (if rstrip s = [] then [] else c # rstrip s)"
  using rstrip_append [of "[c]" s] by (simp add: rstrip_def)

lemma join_eq_Nil: "\<forall>w\<in>set ws. w \<noteq> [] \<Longrightarrow> join sep ws = [] \<longleftrightarrow> ws = []"
  by (induction sep ws rule: join.induct) simp_all

lemma join_Cons: "join sep (w # ws) = (if ws = [] then w else w @ sep @ join sep ws)"
  by (cases ws) simp_all

lemma join_split_eq_Nil: "join [32] (split s) = [] \<longleftrightarrow> split s = []"
  by (rule join_eq_Nil) (use split_words in blast)

lemma rstrip_collapse_runs:
  "rstrip (collapse_runs (dropWhile is_space s)) = join [32] (split s)"
proof (induction s rule: split.induct)
  case (1 s)
  let ?r = "dropWhile is_space s"
  let ?w = "takeWhile (\<lambda>c. \<not> is_space c) ?r"
  let ?r' = "dropWhile (\<lambda>c. \<not> is_space c) ?r"
  show ?case
  proof (cases "?r = []")
    case True
    have "split s = []" by (rule split_empty [OF True])
    then show ?thesis unfolding True by (simp add: rstrip_Nil)
  next
    case False
    then have hd: "\<not> is_space (hd ?r)" by (rule hd_dropWhile_not)
    from False hd have w_ne: "?w \<noteq> []" by (cases ?r) auto
    have w_ns: "\<forall>c\<in>set ?w. \<not> is_space c" by (auto dest: set_takeWhileD)
    from w_ne have "last ?w \<in> set ?w" by (rule last_in_set)
    with w_ns have w_last: "\<not> is_space (last ?w)" by blast
    have IH: "rstrip (collapse_runs (dropWhile is_space ?r')) = join [32] (split ?r')"
      by (rule 1 [OF refl False])
    have "collapse_runs ?r = collapse_runs (?w @ ?r')" by simp
    also have "\<dots> = ?w @ collapse_runs ?r'"
      by (rule collapse_runs_word [OF w_ns])
    finally have cr: "collapse_runs ?r = ?w @ collapse_runs ?r'" .
    have sp: "split s = ?w # split ?r'" by (rule split_Cons [OF False])
    show ?thesis
    proof (cases "?r' = []")
      case True
      have "rstrip (collapse_runs ?r) = rstrip ?w"
        unfolding cr True by simp
      also have "\<dots> = ?w" using w_ne w_last by (rule rstrip_word)
      also have "\<dots> = join [32] (split s)"
        unfolding sp True by (simp add: split_Nil)
      finally show ?thesis .
    next
      case r': False
      then have "is_space (hd ?r')"
        using hd_dropWhile_not [of "\<lambda>c. \<not> is_space c" ?r] by simp
      with r' have cr': "collapse_runs ?r' = 32 # collapse_runs (dropWhile is_space ?r')"
        by (rule collapse_runs_space)
      have "rstrip (collapse_runs ?r)
          = (if rstrip (collapse_runs ?r') = [] then rstrip ?w else ?w @ rstrip (collapse_runs ?r'))"
        unfolding cr by (rule rstrip_append)
      also have "rstrip ?w = ?w" using w_ne w_last by (rule rstrip_word)
      also have "rstrip (collapse_runs ?r')
          = (if join [32] (split ?r') = [] then [] else 32 # join [32] (split ?r'))"
        unfolding cr' by (simp add: rstrip_space_Cons [OF is_space_32] IH)
      finally show ?thesis
        by (simp add: sp join_Cons join_split_eq_Nil)
    qed
  qed
qed

lemma collapse_runs_hd:
  "s = [] \<or> \<not> is_space (hd s) \<Longrightarrow> dropWhile is_space (collapse_runs s) = collapse_runs s"
  by (cases s) auto

lemma lstrip_collapse_runs:
  "dropWhile is_space (collapse_runs s) = collapse_runs (dropWhile is_space s)"
proof (cases "s = [] \<or> \<not> is_space (hd s)")
  case True
  then have "dropWhile is_space s = s" by (cases s) auto
  with True show ?thesis by (simp add: collapse_runs_hd)
next
  case False
  then have ne: "s \<noteq> []" and sp: "is_space (hd s)" by auto
  let ?t = "dropWhile is_space s"
  have "?t = [] \<or> \<not> is_space (hd ?t)"
    using hd_dropWhile_not [of is_space s] by blast
  then have "dropWhile is_space (collapse_runs ?t) = collapse_runs ?t"
    by (rule collapse_runs_hd)
  then show ?thesis
    by (simp add: collapse_runs_space [OF ne sp] is_space_32)
qed

lemma strip_rstrip: "strip s = rstrip (dropWhile is_space s)"
  by (simp add: strip_def rstrip_def)

lemma normalize_text_collapse:
  "normalize_text (Some s) = strip (collapse_runs s)"
  by (simp add: normalize_text_Some strip_rstrip lstrip_collapse_runs rstrip_collapse_runs)

lemma join_words_ends:
  "\<forall>w\<in>set ws. w \<noteq> [] \<and> (\<forall>c\<in>set w. \<not> is_space c) \<Longrightarrow> ws \<noteq> [] \<Longrightarrow>
   \<not> is_space (hd (join [32] ws)) \<and> \<not> is_space (last (join [32] ws))"
proof (induction "[32::nat]" ws rule: join.induct)
  case 1
  then show ?case by simp
next
  case (2 w)
  then show ?case by (cases w) (auto simp: last_in_set)
next
  case (3 w v ws)
  then have "join [32] (v # ws) \<noteq> []" by (simp add: join_eq_Nil)
  with 3 show ?case by (cases w) auto
qed

lemma no_space_runs_word:
  "\<forall>c\<in>set w. \<not> is_space c \<Longrightarrow> no_space_runs r \<Longrightarrow> no_space_runs (w @ r)"
proof (induction w)
  case Nil
  then show ?case by simp
next
  case (Cons a w)
  then show ?case by (cases "w @ r") auto
qed

lemma no_space_runs_join:
  "\<forall>w\<in>set ws. w \<noteq> [] \<and> (\<forall>c\<in>set w. \<not> is_space c) \<Longrightarrow> no_space_runs (join [32] ws)"
proof (induction "[32::nat]" ws rule: join.induct)
  case 1
  show ?case by simp
next
  case (2 w)
  then have "no_space_runs (w @ [])" by (intro no_space_runs_word) auto
  then show ?case by simp
next
  case (3 w v ws)
  let ?n = "join [32] (v # ws)"
  from 3 have n: "no_space_runs ?n" by simp
  from 3(2) have "?n \<noteq> []" by (simp add: join_eq_Nil)
  moreover from 3(2) have "\<not> is_space (hd ?n)"
    using join_words_ends [of "v # ws"] by simp
  ultimately have "no_space_runs (32 # ?n)" using n by (cases ?n) auto
  with 3(2) have "no_space_runs (w @ 32 # ?n)" by (intro no_space_runs_word) auto
  then show ?case by simp
qed

lemma spaces_of_join:
  "\<forall>w\<in>set ws. \<forall>c\<in>set w. \<not> is_space c \<Longrightarrow> c \<in> set (join [32] ws) \<Longrightarrow> is_space c \<Longrightarrow> c = 32"
  by (induction "[32::nat]" ws rule: join.induct) auto

lemma filter_join:
  "filter (\<lambda>c. \<not> is_space c) (join [32] ws) = concat (map (filter (\<lambda>c. \<not> is_space c)) ws)"
  by (induction "[32::nat]" ws rule: join.induct) (simp_all add: is_space_32)

lemma concat_split:
  "concat (split s) = filter (\<lambda>c. \<not> is_space c) s"
proof (induction s rule: split.induct)
  case (1 s)
  let ?r = "dropWhile is_space s"
  have fs: "filter (\<lambda>c. \<not> is_space c) s = filter (\<lambda>c. \<not> is_space c) ?r"
    by (induction s) auto
  show ?case
  proof (cases "?r = []")
    case True
    with fs show ?thesis by (simp add: split_empty [OF True])
  next
    case False
    let ?w = "takeWhile (\<lambda>c. \<not> is_space c) ?r"
    let ?r' = "dropWhile (\<lambda>c. \<not> is_space c) ?r"
    have "filter (\<lambda>c. \<not> is_space c) ?r
        = filter (\<lambda>c. \<not> is_space c) ?w @ filter (\<lambda>c. \<not> is_space c) ?r'"
      by (metis filter_append takeWhile_dropWhile_id)
    also have "filter (\<lambda>c. \<not> is_space c) ?w = ?w"
      by (simp add: filter_id_conv) (auto dest: set_takeWhileD)
    also have "filter (\<lambda>c. \<not> is_space c) ?r' = concat (split ?r')"
      by (rule 1 [OF refl False, symmetric])
    finally show ?thesis by (simp add: fs split_Cons [OF False])
  qed
qed

lemma filter_word: "\<forall>c\<in>set w. \<not> is_space c \<Longrightarrow> filter (\<lambda>c. \<not> is_space c) w = w"
  by (simp add: filter_id_conv)

lemma filter_normalize_text:
  "filter (\<lambda>c. \<not> is_space c) (normalize_text (Some s)) = filter (\<lambda>c. \<not> is_space c) s"
proof -
  have "map (filter (\<lambda>c. \<not> is_space c)) (split s) = split s"
    by (rule map_idI) (use split_words filter_word in blast)
  then show ?thesis
    by (simp add: normalize_text_Some filter_join concat_split)
qed

lemma normalize_text_None: "normalize_text None = []"
  by (simp add: normalize_text_def split_Nil)

lemma normalize_text_empty: "normalize_text (Some []) = []"
  by (simp add: normalize_text_def split_Nil)

lemma all_dropWhile: "(\<forall>c\<in>set (dropWhile P s). P c) \<longleftrightarrow> (\<forall>c\<in>set s. P c)"
  by (induction s) auto

lemma strip_eq_Nil: "strip s = [] \<longleftrightarrow> (\<forall>c\<in>set s. is_space c)"
  by (simp add: strip_def all_dropWhile)

lemma normalize_text_blank: "\<forall>c\<in>set s. is_space c \<Longrightarrow> normalize_text (Some s) = []"
  by (simp add: normalize_text_Some split_empty)

lemma strip_replicate: "\<not> is_space c \<Longrightarrow> strip (replicate n c) = replicate n c"
  by (cases n) (simp_all add: strip_def replicate_append_same [symmetric] del: replicate_Suc)

lemma normalize_text_replicate:
  "\<not> is_space c \<Longrightarrow> 0 < n \<Longrightarrow> normalize_text (Some (replicate n c)) = replicate n c"
  using split_word_append [of "replicate n c" "[]"]
  by (simp add: normalize_text_Some split_Nil)

lemma strip_ends: "n = [] \<or> (\<not> is_space (hd n) \<and> \<not> is_space (last n)) \<Longrightarrow> strip n = n"
proof (cases n rule: rev_cases)
  case Nil
  then show ?thesis by (simp add: strip_def)
next
  case (snoc ys y)
  assume "n = [] \<or> (\<not> is_space (hd n) \<and> \<not> is_space (last n))"
  with snoc have h: "\<not> is_space (hd n)" and y: "\<not> is_space y" by auto
  from snoc have "n \<noteq> []" by simp
  then obtain a as where n: "n = a # as" by (auto simp: neq_Nil_conv)
  with h have d: "dropWhile is_space n = n" by simp
  have "strip n = rev (dropWhile is_space (rev n))"
    unfolding strip_def d ..
  also have "\<dots> = n" using y unfolding snoc by simp
  finally show ?thesis .
qed

lemma strip_normalize_text: "strip (normalize_text (Some s)) = normalize_text (Some s)"
proof (rule strip_ends)
  show "normalize_text (Some s) = [] \<or>
      (\<not> is_space (hd (normalize_text (Some s))) \<and> \<not> is_space (last (normalize_text (Some s))))"
  proof (cases "split s = []")
    case True
    then show ?thesis by (simp add: normalize_text_Some)
  next
    case False
    have "\<forall>w\<in>set (split s). w \<noteq> [] \<and> (\<forall>c\<in>set w. \<not> is_space c)"
      using split_words by blast
    from join_words_ends [OF this False] show ?thesis
      by (simp add: normalize_text_Some)
  qed
qed

text \<open>
  C8: \<^verbatim>\<open>_normalize_text\<close> is a total function of its argument, \<^verbatim>\<open>None\<close> included: it maps
  \<^verbatim>\<open>None\<close> and the empty string to the empty string, and on every string it gives what the
  specification says: each run of whitespace collapsed to one space, and whitespace removed
  at both ends. Its result has no two adjacent whitespace characters, every whitespace
  character in it is the space U+0020, stripping it changes nothing, and its characters other
  than whitespace are those of the argument, in the same order.
\<close>

theorem C8_normalize_text_collapses:
  "normalize_text None = []
   \<and> normalize_text (Some []) = []
   \<and> normalize_text (Some s) = spec_normalize s
   \<and> no_space_runs (normalize_text (Some s))
   \<and> (\<forall>c\<in>set (normalize_text (Some s)). is_space c \<longrightarrow> c = 32)
   \<and> strip (normalize_text (Some s)) = normalize_text (Some s)
   \<and> filter (\<lambda>c. \<not> is_space c) (normalize_text (Some s)) = filter (\<lambda>c. \<not> is_space c) s"
proof -
  have words: "\<forall>w\<in>set (split s). w \<noteq> [] \<and> (\<forall>c\<in>set w. \<not> is_space c)"
    using split_words by blast
  have "no_space_runs (normalize_text (Some s))"
    unfolding normalize_text_Some by (rule no_space_runs_join [OF words])
  moreover have "\<forall>c\<in>set (normalize_text (Some s)). is_space c \<longrightarrow> c = 32"
    unfolding normalize_text_Some using words spaces_of_join [of "split s"] by blast
  moreover have "normalize_text (Some s) = spec_normalize s"
    unfolding spec_normalize_def by (rule normalize_text_collapse)
  moreover note normalize_text_None normalize_text_empty strip_normalize_text [of s]
    filter_normalize_text [of s]
  ultimately show ?thesis by blast
qed

theorem C8_normalize_text_collapses_witness:
  "normalize_text (Some [9, 104, 105, 32, 10, 8195, 121, 111, 117, 13]) = [104, 105, 32, 121, 111, 117]
   \<and> spec_normalize [9, 104, 105, 32, 10, 8195, 121, 111, 117, 13] = [104, 105, 32, 121, 111, 117]"
  using C8_normalize_text_collapses [of "[9, 104, 105, 32, 10, 8195, 121, 111, 117, 13]"]
  by (simp add: spec_normalize_def strip_def is_space_def)

text \<open>
  C9: normalisation is idempotent: normalising a normalised text gives the same text.
\<close>

theorem C9_normalize_text_idempotent:
  "normalize_text (Some (normalize_text s)) = normalize_text s"
proof -
  obtain t where "normalize_text s = join [32] (split t)"
    by (cases s) (auto simp: normalize_text_def py_space)
  moreover have "split (join [32] (split t)) = split t"
    by (rule split_join) (use split_words in blast)
  ultimately show ?thesis by (simp add: normalize_text_Some)
qed

theorem C9_normalize_text_idempotent_witness:
  "normalize_text (Some (normalize_text (Some [9, 104, 105, 32, 10, 8195, 121, 111, 117, 13])))
     = [104, 105, 32, 121, 111, 117]"
  using C9_normalize_text_idempotent [of "Some [9, 104, 105, 32, 10, 8195, 121, 111, 117, 13]"]
  by (simp add: normalize_text_collapse strip_def is_space_def)

section \<open>The request handler: resolution, fallback and full pipeline\<close>

lemma pick_source_text:
  "nonblank (req_text req) \<Longrightarrow> pick_source env req = ([], Inr (stripped (req_text req)))"
  by (simp add: pick_source_def)

lemma pick_source_none:
  "\<not> nonblank (req_text req) \<Longrightarrow> \<not> nonblank (req_url req) \<Longrightarrow>
   pick_source env req =
     ([], Inl (Returned [(''error'', Str (py ''Please provide either text or a valid URL.''))]))"
  by (simp add: pick_source_def)

lemma pick_source_calls:
  "pick_source env req = (calls, r) \<Longrightarrow> calls = [] \<or> calls = [Scrape (stripped (req_url req)) 7]"
  by (auto simp: pick_source_def split: if_splits sum.splits)

lemma stage_event_kind: "\<not> is_Scrape (stage_event t st) \<and> \<not> is_Fetch (stage_event t st)"
  by (cases st) simp_all

lemma run_analysis_no_scrape:
  "ev \<in> set (fst (run_analysis env finish raw_text)) \<Longrightarrow> \<not> is_Scrape ev"
  by (auto simp: run_analysis_def Let_def stage_event_kind
      split: if_splits sum.splits gathered.splits)

lemma run_analysis_short:
  "length (normalize_text (Some raw_text)) < 200 \<Longrightarrow>
   analyze_sentiment env (normalize_text (Some raw_text)) = Inr s \<Longrightarrow>
   run_analysis env finish raw_text =
     ([AnalyzeSentiment (normalize_text (Some raw_text))],
      Returned
        [(''keywords'', StrList [py ''news'', py ''world'', py ''article'']),
         (''sentiment'', Sentiment s),
         (''bias'', Str (py ''center'')),
         (''related_articles'', Articles []),
         (''note'', Str (py
            ''Input is quite short; topic extraction is less reliable on short texts.''))])"
  by (simp add: run_analysis_def Let_def)

lemma run_analysis_short_raises:
  "length (normalize_text (Some raw_text)) < 200 \<Longrightarrow>
   analyze_sentiment env (normalize_text (Some raw_text)) = Inl e \<Longrightarrow>
   run_analysis env finish raw_text =
     ([AnalyzeSentiment (normalize_text (Some raw_text))], Raised (leaving_coroutine e))"
  by (simp add: run_analysis_def Let_def)

lemma process_article_resolved:
  "pick_source env req = (calls, Inr raw_text) \<Longrightarrow>
   process_article env finish req =
     (calls @ fst (run_analysis env finish raw_text), snd (run_analysis env finish raw_text))"
  by (simp add: process_article_def split: prod.splits)

text \<open>
  C1, as the code has it: when a request resolves to a text whose normalised form has fewer
  than 200 characters, and the sentiment analyser returns on that normalised text,
  \<^verbatim>\<open>process_article\<close> calls the sentiment analyser on it and nothing else, and returns the
  fallback response: the keywords news, world, article, the analyser's result as sentiment,
  the bias center, no related article, and a note, which is not empty.
\<close>

theorem C1_short_text_fallback:
  assumes "pick_source env req = (calls, Inr raw_text)"
    and "length (normalize_text (Some raw_text)) < 200"
    and "analyze_sentiment env (normalize_text (Some raw_text)) = Inr s"
  shows "process_article env finish req =
     (calls @ [AnalyzeSentiment (normalize_text (Some raw_text))],
      Returned
        [(''keywords'', StrList [py ''news'', py ''world'', py ''article'']),
         (''sentiment'', Sentiment s),
         (''bias'', Str (py ''center'')),
         (''related_articles'', Articles []),
         (''note'', Str (py
            ''Input is quite short; topic extraction is less reliable on short texts.''))])
     \<and> py ''Input is quite short; topic extraction is less reliable on short texts.'' \<noteq> []"
proof -
  from assms(2,3) have "run_analysis env finish raw_text =
     ([AnalyzeSentiment (normalize_text (Some raw_text))],
      Returned
        [(''keywords'', StrList [py ''news'', py ''world'', py ''article'']),
         (''sentiment'', Sentiment s),
         (''bias'', Str (py ''center'')),
         (''related_articles'', Articles []),
         (''note'', Str (py
            ''Input is quite short; topic extraction is less reliable on short texts.''))])"
    by (rule run_analysis_short)
  with process_article_resolved [OF assms(1), of finish] show ?thesis
    by (simp add: py_def)
qed

lemma nonblank_hello: "nonblank (Some (py ''  Hello   world ''))"
  by (simp add: nonblank_def py_def strip_def is_space_def)

lemma stripped_hello: "stripped (Some (py ''  Hello   world '')) = py ''Hello   world''"
  by (simp add: stripped_def py_def strip_def is_space_def)

lemma normalize_hello: "normalize_text (Some (py ''Hello   world'')) = py ''Hello world''"
  by (simp add: spec_normalize_def [symmetric] normalize_text_collapse spec_normalize_def
      py_def strip_def is_space_def)

theorem C1_short_text_fallback_witness:
  "process_article stub_capabilities simultaneous
       \<lparr>req_text = Some (py ''  Hello   world ''), req_url = None\<rparr> =
     ([AnalyzeSentiment (py ''Hello world'')],
      Returned
        [(''keywords'', StrList [py ''news'', py ''world'', py ''article'']),
         (''sentiment'', Sentiment (py ''neutral'')),
         (''bias'', Str (py ''center'')),
         (''related_articles'', Articles []),
         (''note'', Str (py
            ''Input is quite short; topic extraction is less reliable on short texts.''))])"
proof -
  let ?req = "\<lparr>req_text = Some (py ''  Hello   world ''), req_url = None\<rparr>"
  have h1: "pick_source stub_capabilities ?req = ([], Inr (py ''Hello   world''))"
    by (simp add: pick_source_def nonblank_hello stripped_hello)
  have h2: "length (normalize_text (Some (py ''Hello   world''))) < 200"
    by (simp add: normalize_hello) (simp add: py_def)
  have h3: "analyze_sentiment stub_capabilities (normalize_text (Some (py ''Hello   world'')))
      = Inr (py ''neutral'')"
    by (simp add: stub_capabilities_def)
  from C1_short_text_fallback [OF h1 h2 h3] show ?thesis
    by (simp add: normalize_hello)
qed

text \<open>
  C1 as stated fails: the request need not return the fallback response. On a text of 11
  characters, with a sentiment analyser that raises, \<^verbatim>\<open>process_article\<close> returns nothing
  and raises the analyser's exception.
\<close>

theorem C1_raising_sentiment_no_fallback:
  "length (normalize_text (Some (stripped (Some (py ''  Hello   world ''))))) < 200
   \<and> process_article failing_sentiment simultaneous
       \<lparr>req_text = Some (py ''  Hello   world ''), req_url = None\<rparr> =
     ([AnalyzeSentiment (py ''Hello world'')], Raised (PyException (py ''model not loaded'')))"
proof -
  let ?req = "\<lparr>req_text = Some (py ''  Hello   world ''), req_url = None\<rparr>"
  have len: "length (normalize_text (Some (py ''Hello   world''))) < 200"
    by (simp add: normalize_hello) (simp add: py_def)
  have ps: "pick_source failing_sentiment ?req = ([], Inr (py ''Hello   world''))"
    by (simp add: pick_source_def nonblank_hello stripped_hello)
  have "analyze_sentiment failing_sentiment (normalize_text (Some (py ''Hello   world'')))
      = Inl (PyException (py ''model not loaded''))"
    by (simp add: failing_sentiment_def stub_capabilities_def)
  from run_analysis_short_raises [OF len this, of simultaneous]
    process_article_resolved [OF ps, of simultaneous] len
  show ?thesis
    by (simp add: normalize_hello stripped_hello)
qed

text \<open>
  C6: when both the text and the URL are absent or blank after stripping,
  \<^verbatim>\<open>process_article\<close> returns the error response
  \<^verbatim>\<open>{"error": "Please provide either text or a valid URL."}\<close> and calls no capability.
\<close>

theorem C6_no_text_no_url:
  assumes "\<not> nonblank (req_text req)" and "\<not> nonblank (req_url req)"
  shows "process_article env finish req =
     ([], Returned [(''error'', Str (py ''Please provide either text or a valid URL.''))])"
  using assms by (simp add: process_article_def pick_source_none)

theorem C6_no_text_no_url_witness:
  "process_article stub_capabilities simultaneous \<lparr>req_text = None, req_url = Some (py ''  '')\<rparr> =
     ([], Returned [(''error'', Str (py ''Please provide either text or a valid URL.''))])"
proof -
  let ?req = "\<lparr>req_text = None, req_url = Some (py ''  '')\<rparr>"
  have h1: "\<not> nonblank (req_text ?req)" by (simp add: nonblank_def)
  have h2: "\<not> nonblank (req_url ?req)"
    by (simp add: nonblank_def py_def strip_def is_space_def)
  from C6_no_text_no_url [OF h1 h2] show ?thesis .
qed

text \<open>
  C7: when the text is absent or blank, the URL is not blank and the scraping step raises an
  exception \<open>e\<close> that \<^verbatim>\<open>except Exception\<close> catches, \<^verbatim>\<open>process_article\<close> returns
  \<^verbatim>\<open>{"error": "Failed to extract article from URL: " + str(e)}\<close>; the scraper has been
  called once, on the stripped URL with the timeout 7, and no analysis has been called.
\<close>

theorem C7_scrape_failure:
  assumes "\<not> nonblank (req_text req)" and "nonblank (req_url req)"
    and "scrape_with_newspaper env (stripped (req_url req)) 7 = Inl e"
    and "is_Exception e"
  shows "process_article env finish req =
     ([Scrape (stripped (req_url req)) 7],
      Returned [(''error'', Str (py ''Failed to extract article from URL: '' @ exn_str e))])"
  using assms by (simp add: process_article_def pick_source_def)

lemma stripped_dead_link:
  "stripped (Some (py ''https://example.com/dead-link'')) = py ''https://example.com/dead-link''"
  by (simp add: stripped_def py_def strip_def is_space_def)

lemma nonblank_dead_link: "nonblank (Some (py ''https://example.com/dead-link''))"
  by (simp add: nonblank_def py_def strip_def is_space_def)

theorem C7_scrape_failure_witness:
  "process_article stub_capabilities simultaneous
       \<lparr>req_text = Some [], req_url = Some (py ''https://example.com/dead-link'')\<rparr> =
     ([Scrape (py ''https://example.com/dead-link'') 7],
      Returned [(''error'', Str (py ''Failed to extract article from URL: timed out''))])"
proof -
  let ?req = "\<lparr>req_text = Some [], req_url = Some (py ''https://example.com/dead-link'')\<rparr>"
  have h1: "\<not> nonblank (req_text ?req)" by (simp add: nonblank_def)
  have h2: "nonblank (req_url ?req)" by (simp add: nonblank_dead_link)
  have h3: "scrape_with_newspaper stub_capabilities (stripped (req_url ?req)) 7
      = Inl (PyException (py ''timed out''))"
    by (simp add: scrape_with_newspaper_def stub_capabilities_def stripped_dead_link)
  have h4: "is_Exception (PyException (py ''timed out''))" by simp
  from C7_scrape_failure [OF h1 h2 h3 h4, of simultaneous] show ?thesis
    by (simp add: stripped_dead_link) (simp add: py_def)
qed

text \<open>
  C10, as the code has it: when the text is absent or blank, the URL is not blank, the
  article is downloaded and parsed with a body that is \<^verbatim>\<open>None\<close>, empty or whitespace only,
  and the sentiment analyser returns on the empty string, then the scraper gives the body
  stripped to the empty string, the raw text is the empty string, its normalised form is the
  empty string, of length 0, and \<^verbatim>\<open>process_article\<close> returns the fallback response with the
  sentiment of the empty string, having called the scraper and then the sentiment analyser
  on the empty string.
\<close>

theorem C10_empty_scrape_is_fallback:
  assumes "\<not> nonblank (req_text req)" and "nonblank (req_url req)"
    and "article_text env (stripped (req_url req)) 7 = Inr body"
    and "case body of None \<Rightarrow> True | Some b \<Rightarrow> \<forall>c\<in>set b. is_space c"
    and "analyze_sentiment env [] = Inr s"
  shows "scrape_with_newspaper env (stripped (req_url req)) 7 = Inr []
     \<and> pick_source env req = ([Scrape (stripped (req_url req)) 7], Inr [])
     \<and> normalize_text (Some []) = []
     \<and> process_article env finish req =
         ([Scrape (stripped (req_url req)) 7, AnalyzeSentiment []],
          Returned
            [(''keywords'', StrList [py ''news'', py ''world'', py ''article'']),
             (''sentiment'', Sentiment s),
             (''bias'', Str (py ''center'')),
             (''related_articles'', Articles []),
             (''note'', Str (py
                ''Input is quite short; topic extraction is less reliable on short texts.''))])"
proof -
  from assms(4) have "strip (case body of None \<Rightarrow> [] | Some b \<Rightarrow> if b = [] then [] else b) = []"
    by (cases body) (simp_all add: strip_eq_Nil)
  with assms(3) have sc: "scrape_with_newspaper env (stripped (req_url req)) 7 = Inr []"
    by (simp add: scrape_with_newspaper_def)
  with assms(1,2) have ps: "pick_source env req = ([Scrape (stripped (req_url req)) 7], Inr [])"
    by (simp add: pick_source_def)
  have len: "length (normalize_text (Some [])) < 200"
    by (simp add: normalize_text_empty)
  have sent: "analyze_sentiment env (normalize_text (Some [])) = Inr s"
    using assms(5) by (simp add: normalize_text_empty)
  from run_analysis_short [OF len sent, of finish] process_article_resolved [OF ps, of finish]
    sc ps
  show ?thesis
    by (simp add: normalize_text_empty)
qed

lemma stripped_blank_page:
  "stripped (Some (py '' https://example.com/blank '')) = py ''https://example.com/blank''"
  by (simp add: stripped_def py_def strip_def is_space_def)

lemma nonblank_blank_page: "nonblank (Some (py '' https://example.com/blank ''))"
  by (simp add: nonblank_def py_def strip_def is_space_def)

theorem C10_empty_scrape_is_fallback_witness:
  "process_article stub_capabilities simultaneous
       \<lparr>req_text = None, req_url = Some (py '' https://example.com/blank '')\<rparr> =
     ([Scrape (py ''https://example.com/blank'') 7, AnalyzeSentiment []],
      Returned
        [(''keywords'', StrList [py ''news'', py ''world'', py ''article'']),
         (''sentiment'', Sentiment (py ''neutral'')),
         (''bias'', Str (py ''center'')),
         (''related_articles'', Articles []),
         (''note'', Str (py
            ''Input is quite short; topic extraction is less reliable on short texts.''))])"
proof -
  let ?req = "\<lparr>req_text = None, req_url = Some (py '' https://example.com/blank '')\<rparr>"
  have h1: "\<not> nonblank (req_text ?req)" by (simp add: nonblank_def)
  have h2: "nonblank (req_url ?req)" by (simp add: nonblank_blank_page)
  have h3: "article_text stub_capabilities (stripped (req_url ?req)) 7 = Inr (Some (py ''   ''))"
    by (simp add: stub_capabilities_def stripped_blank_page) (simp add: py_def)
  have h4: "case Some (py ''   '') of None \<Rightarrow> True | Some b \<Rightarrow> \<forall>c\<in>set b. is_space c"
    by (simp add: py_def is_space_def)
  have h5: "analyze_sentiment stub_capabilities [] = Inr (py ''neutral'')"
    by (simp add: stub_capabilities_def)
  from C10_empty_scrape_is_fallback [OF h1 h2 h3 h4 h5, of simultaneous] show ?thesis
    by (simp add: stripped_blank_page)
qed

text \<open>
  C10 as stated fails: the request can fail. With a page whose body is whitespace only and a
  sentiment analyser that raises, \<^verbatim>\<open>process_article\<close> returns nothing and raises the
  analyser's exception.
\<close>

theorem C10_empty_scrape_can_fail:
  "process_article failing_sentiment simultaneous
       \<lparr>req_text = None, req_url = Some (py '' https://example.com/blank '')\<rparr> =
     ([Scrape (py ''https://example.com/blank'') 7, AnalyzeSentiment []],
      Raised (PyException (py ''model not loaded'')))"
proof -
  let ?req = "\<lparr>req_text = None, req_url = Some (py '' https://example.com/blank '')\<rparr>"
  have "article_text failing_sentiment (py ''https://example.com/blank'') 7 = Inr (Some (py ''   ''))"
    by (simp add: failing_sentiment_def stub_capabilities_def) (simp add: py_def)
  moreover have "strip (py ''   '') = []"
    by (simp add: strip_eq_Nil) (simp add: py_def is_space_def)
  ultimately have "scrape_with_newspaper failing_sentiment (py ''https://example.com/blank'') 7
      = Inr []"
    by (simp add: scrape_with_newspaper_def)
  moreover have "\<not> nonblank None" by (simp add: nonblank_def)
  ultimately have ps: "pick_source failing_sentiment ?req
      = ([Scrape (py ''https://example.com/blank'') 7], Inr [])"
    by (simp add: pick_source_def nonblank_blank_page stripped_blank_page)
  have len: "length (normalize_text (Some [])) < 200"
    by (simp add: normalize_text_empty)
  have "analyze_sentiment failing_sentiment (normalize_text (Some []))
      = Inl (PyException (py ''model not loaded''))"
    by (simp add: failing_sentiment_def stub_capabilities_def)
  from run_analysis_short_raises [OF len this, of simultaneous]
    process_article_resolved [OF ps, of simultaneous]
  show ?thesis
    by (simp add: normalize_text_empty)
qed

lemma stage_failure_ignores_scraper:
  "stage_failure (env\<lparr>article_text := f\<rparr>) t = stage_failure env t"
  by (rule ext) (simp add: stage_failure_def split: stage.splits)

lemma gather_ignores_scraper:
  "gather (env\<lparr>article_text := f\<rparr>) finish t = gather env finish t"
  by (simp add: gather_def first_failure_def unusual_failure_def stage_failure_ignores_scraper
      split: option.splits sum.splits prod.splits)

lemma run_analysis_ignores_scraper:
  "run_analysis (env\<lparr>article_text := f\<rparr>) finish raw_text = run_analysis env finish raw_text"
  by (simp add: run_analysis_def Let_def gather_ignores_scraper
      split: sum.splits gathered.splits)

text \<open>
  C5: when the text is present and not blank after stripping, \<^verbatim>\<open>process_article\<close> takes the
  stripped text as its raw text and calls no scraper: no scraper call is among the calls
  made, and the result is the same whatever the URL field holds and whatever the scraper
  would do.
\<close>

theorem C5_text_takes_precedence:
  assumes "nonblank (req_text req)"
  shows "pick_source env req = ([], Inr (stripped (req_text req)))
     \<and> process_article env finish req = run_analysis env finish (stripped (req_text req))
     \<and> (\<forall>ev\<in>set (fst (process_article env finish req)). \<not> is_Scrape ev)
     \<and> process_article env finish (req\<lparr>req_url := u\<rparr>) = process_article env finish req
     \<and> process_article (env\<lparr>article_text := f\<rparr>) finish req = process_article env finish req"
proof -
  have ps: "pick_source env' (req\<lparr>req_url := u'\<rparr>) = ([], Inr (stripped (req_text req)))"
    for u' and env' :: "('a, 'b) capabilities"
    using assms by (simp add: pick_source_def)
  have pa: "process_article env' finish (req\<lparr>req_url := u'\<rparr>)
      = run_analysis env' finish (stripped (req_text req))"
    for u' and env' :: "('a, 'b) capabilities"
    by (simp add: process_article_def ps)
  have same: "process_article env' finish req = run_analysis env' finish (stripped (req_text req))"
    for env' :: "('a, 'b) capabilities"
    using pa [of env' "req_url req"] by simp
  have "\<forall>ev\<in>set (fst (process_article env finish req)). \<not> is_Scrape ev"
    unfolding same using run_analysis_no_scrape by blast
  moreover have "pick_source env req = ([], Inr (stripped (req_text req)))"
    using ps [of env "req_url req"] by simp
  ultimately show ?thesis
    by (simp add: pa same run_analysis_ignores_scraper)
qed

theorem C5_text_takes_precedence_witness:
  "process_article stub_capabilities simultaneous
       \<lparr>req_text = Some (py ''  Hello   world ''),
        req_url = Some (py ''https://example.com/dead-link'')\<rparr>
     = run_analysis stub_capabilities simultaneous (py ''Hello   world'')
   \<and> fst (process_article stub_capabilities simultaneous
       \<lparr>req_text = Some (py ''  Hello   world ''),
        req_url = Some (py ''https://example.com/dead-link'')\<rparr>)
     = [AnalyzeSentiment (py ''Hello world'')]"
proof -
  let ?req = "\<lparr>req_text = Some (py ''  Hello   world ''),
        req_url = Some (py ''https://example.com/dead-link'')\<rparr>"
  have h1: "nonblank (req_text ?req)" by (simp add: nonblank_hello)
  have "length (normalize_text (Some (py ''Hello   world''))) < 200"
    by (simp add: normalize_hello) (simp add: py_def)
  then have "fst (run_analysis stub_capabilities simultaneous (py ''Hello   world''))
      = [AnalyzeSentiment (py ''Hello world'')]"
    by (simp add: run_analysis_def Let_def normalize_hello)
  with C5_text_takes_precedence [OF h1, of stub_capabilities simultaneous] show ?thesis
    by (simp add: stripped_hello)
qed

text \<open>
  C3: every response that \<^verbatim>\<open>process_article\<close> returns and that is not an error response has
  a list of related articles of length at most 7, however many articles the retrieval
  returns.
\<close>

theorem C3_related_articles_bounded:
  assumes "process_article env finish req = (calls, Returned resp)"
    and "map_of resp ''error'' = None"
  shows "\<exists>related. map_of resp ''related_articles'' = Some (Articles related)
     \<and> length related \<le> 7"
proof (cases "pick_source env req")
  case (Pair c r)
  show ?thesis
  proof (cases r)
    case (Inl ended)
    with Pair assms(1) have "ended = Returned resp"
      by (simp add: process_article_def)
    with Pair Inl assms(2) show ?thesis
      by (auto simp: pick_source_def split: if_splits sum.splits)
  next
    case (Inr raw_text)
    with Pair assms(1) have "snd (run_analysis env finish raw_text) = Returned resp"
      by (simp add: process_article_def split: prod.splits)
    then show ?thesis
      by (auto simp: run_analysis_def Let_def split: if_splits sum.splits gathered.splits)
  qed
qed




lemma map_filter_all_None: "\<forall>x\<in>set xs. f x = None \<Longrightarrow> List.map_filter f xs = []"
  by (induction xs) simp_all


lemma first_failure_None:
  "\<forall>st. stage_failure env t st = None \<Longrightarrow> first_failure env finish t = None"
  by (simp add: first_failure_def map_filter_all_None)


lemma unusual_failure_iff:
  "unusual_failure env t \<longleftrightarrow> (\<exists>st e. stage_failure env t st = Some e \<and> \<not> is_ordinary e)"
proof
  assume "unusual_failure env t"
  then show "\<exists>st e. stage_failure env t st = Some e \<and> \<not> is_ordinary e"
    by (auto simp: unusual_failure_def split: option.splits)
next
  assume "\<exists>st e. stage_failure env t st = Some e \<and> \<not> is_ordinary e"
  then obtain st e where "stage_failure env t st = Some e" "\<not> is_ordinary e" by blast
  then show "unusual_failure env t"
    by (cases st) (auto simp: unusual_failure_def)
qed

lemma gather_success:
  assumes "analyze_sentiment env t = Inr s" and "classify_political_bias env t = Inr b"
    and "extract_topics env t = Inr k"
  shows "gather env finish t = Gathered s b k"
proof -
  have none: "stage_failure env t st = None" for st
    using assms by (cases st) (simp_all add: stage_failure_def)
  then have "first_failure env finish t = None"
    by (simp add: first_failure_None)
  moreover from none have "\<not> unusual_failure env t"
    by (simp add: unusual_failure_iff)
  ultimately show ?thesis using assms by (simp add: gather_def)
qed


lemma run_analysis_full:
  assumes "200 \<le> length (normalize_text (Some raw_text))"
    and "analyze_sentiment env (normalize_text (Some raw_text)) = Inr s"
    and "classify_political_bias env (normalize_text (Some raw_text)) = Inr b"
    and "extract_topics env (normalize_text (Some raw_text)) = Inr k"
    and "fetch_articles env k = Inr related"
  shows "run_analysis env finish raw_text =
     ([AnalyzeSentiment (normalize_text (Some raw_text)),
       ClassifyBias (normalize_text (Some raw_text)),
       ExtractTopics (normalize_text (Some raw_text)),
       FetchArticles k],
      Returned
        [(''keywords'', StrList k),
         (''sentiment'', Sentiment s),
         (''bias'', Str b),
         (''related_articles'', Articles (take 7 related))])"
  using assms(1,5) gather_success [OF assms(2,3,4), of finish]
  by (simp add: run_analysis_def Let_def)


lemma pick_source_scrapes:
  "pick_source env req = (calls, r) \<Longrightarrow> ev \<in> set calls \<Longrightarrow> is_Scrape ev"
  using pick_source_calls [of env req calls r] by auto

lemma nonblank_long_text: "nonblank (Some long_text)"
  by (simp add: nonblank_def long_text_def strip_replicate is_space_def)

lemma stripped_long_text: "stripped (Some long_text) = long_text"
  by (simp add: stripped_def long_text_def strip_replicate is_space_def)

lemma normalize_long_text: "normalize_text (Some long_text) = long_text"
  by (simp add: long_text_def normalize_text_replicate is_space_def)

lemma length_long_text: "length long_text = 200"
  by (simp add: long_text_def)

lemma pick_source_long_request: "pick_source env long_request = ([], Inr long_text)"
  by (simp add: pick_source_def long_request_def nonblank_long_text stripped_long_text)

text \<open>
  C2: when a request resolves to a text whose normalised form has at least 200 characters
  and the three analyses and the retrieval return, then, whatever the order in which the
  analyses complete, \<^verbatim>\<open>process_article\<close> calls each analysis once, on the normalised
  text, then the retrieval on the keywords, and returns a response whose keywords,
  sentiment and bias are the results of topic extraction, sentiment analysis and bias
  classification; the response has no note. The calls made before are scraper calls only.
\<close>

theorem C2_full_pipeline:
  assumes "pick_source env req = (calls, Inr raw_text)"
    and "200 \<le> length (normalize_text (Some raw_text))"
    and "analyze_sentiment env (normalize_text (Some raw_text)) = Inr s"
    and "classify_political_bias env (normalize_text (Some raw_text)) = Inr b"
    and "extract_topics env (normalize_text (Some raw_text)) = Inr k"
    and "fetch_articles env k = Inr related"
  shows "\<exists>resp. process_article env finish req =
       (calls @ [AnalyzeSentiment (normalize_text (Some raw_text)),
                 ClassifyBias (normalize_text (Some raw_text)),
                 ExtractTopics (normalize_text (Some raw_text)),
                 FetchArticles k],
        Returned resp)
     \<and> resp = [(''keywords'', StrList k),
               (''sentiment'', Sentiment s),
               (''bias'', Str b),
               (''related_articles'', Articles (take 7 related))]
     \<and> map_of resp ''note'' = None
     \<and> (\<forall>ev\<in>set calls. is_Scrape ev)"
proof -
  have "\<forall>ev\<in>set calls. is_Scrape ev"
    using pick_source_scrapes [OF assms(1)] by blast
  with run_analysis_full [OF assms(2-6), of finish] process_article_resolved [OF assms(1), of finish]
  show ?thesis by simp
qed

theorem C2_full_pipeline_witness:
  "process_article stub_capabilities topics_first long_request =
     ([AnalyzeSentiment long_text, ClassifyBias long_text, ExtractTopics long_text,
       FetchArticles [py ''economy'']],
      Returned
        [(''keywords'', StrList [py ''economy'']),
         (''sentiment'', Sentiment (py ''neutral'')),
         (''bias'', Str (py ''left'')),
         (''related_articles'', Articles (replicate 7 (py ''headline'')))])"
proof -
  have h1: "pick_source stub_capabilities long_request = ([], Inr long_text)"
    by (rule pick_source_long_request)
  have h2: "200 \<le> length (normalize_text (Some long_text))"
    by (simp add: normalize_long_text length_long_text)
  have h3: "analyze_sentiment stub_capabilities (normalize_text (Some long_text))
      = Inr (py ''neutral'')"
    by (simp add: stub_capabilities_def)
  have h4: "classify_political_bias stub_capabilities (normalize_text (Some long_text))
      = Inr (py ''left'')"
    by (simp add: stub_capabilities_def)
  have h5: "extract_topics stub_capabilities (normalize_text (Some long_text))
      = Inr [py ''economy'']"
    by (simp add: stub_capabilities_def)
  have h6: "fetch_articles stub_capabilities [py ''economy''] = Inr (replicate 9 (py ''headline''))"
    by (simp add: stub_capabilities_def)
  from C2_full_pipeline [OF h1 h2 h3 h4 h5 h6, of topics_first] show ?thesis
    by (simp add: normalize_long_text)
qed

theorem C3_related_articles_bounded_witness:
  "process_article stub_capabilities simultaneous long_request =
     ([AnalyzeSentiment long_text, ClassifyBias long_text, ExtractTopics long_text,
       FetchArticles [py ''economy'']],
      Returned
        [(''keywords'', StrList [py ''economy'']),
         (''sentiment'', Sentiment (py ''neutral'')),
         (''bias'', Str (py ''left'')),
         (''related_articles'', Articles (replicate 7 (py ''headline'')))])
   \<and> fetch_articles stub_capabilities [py ''economy''] = Inr (replicate 9 (py ''headline''))
   \<and> (\<exists>related. map_of
         [(''keywords'', StrList [py ''economy'']),
          (''sentiment'', Sentiment (py ''neutral'')),
          (''bias'', Str (py ''left'')),
          (''related_articles'', Articles (replicate 7 (py ''headline'')))]
         ''related_articles'' = Some (Articles related)
       \<and> length related \<le> 7)"
proof -
  let ?resp = "[(''keywords'', StrList [py ''economy'']),
          (''sentiment'', Sentiment (py ''neutral'')),
          (''bias'', Str (py ''left'')),
          (''related_articles'', Articles (replicate 7 (py ''headline'')))]"
  have nine: "fetch_articles stub_capabilities [py ''economy''] = Inr (replicate 9 (py ''headline''))"
    by (simp add: stub_capabilities_def)
  have "run_analysis stub_capabilities simultaneous long_text =
     ([AnalyzeSentiment long_text, ClassifyBias long_text, ExtractTopics long_text,
       FetchArticles [py ''economy'']], Returned ?resp)"
    using run_analysis_full [of long_text stub_capabilities "py ''neutral''" "py ''left''"
        "[py ''economy'']" "replicate 9 (py ''headline'')" simultaneous]
    by (simp add: normalize_long_text length_long_text stub_capabilities_def)
  then have h1: "process_article stub_capabilities simultaneous long_request =
     ([AnalyzeSentiment long_text, ClassifyBias long_text, ExtractTopics long_text,
       FetchArticles [py ''economy'']], Returned ?resp)"
    by (simp add: process_article_def pick_source_long_request)
  have h2: "map_of ?resp ''error'' = None" by simp
  from C3_related_articles_bounded [OF h1 h2] h1 nine show ?thesis by blast
qed





end
